theory Spec2Isabelle
  imports Main "HOL-Library.AList"
begin

section \<open>Values held by the coordinator\<close>

text \<open>
  The coordinator's \<^verbatim>\<open>data["results"]\<close> is the decoded JSON answer of the vehicle API:
  a list of cars, each a dictionary with string keys whose values are strings, numbers,
  booleans, \<^verbatim>\<open>None\<close>, lists or further dictionaries. A dictionary is an association
  list in insertion order, read with \<open>map_of\<close> (the first entry of a key is the one
  that counts) and written with \<open>AList.update\<close> (an existing key keeps its place, a new
  key goes to the end), which is what a Python \<^verbatim>\<open>dict\<close> does. Decoded JSON is a tree:
  no dictionary object is reachable along two different paths, so an in-place store
  into a nested dictionary is the rebuilt parent. Floating-point leaves are left out;
  every operation below treats them like the integer leaves.
\<close>

datatype pyval =
    PNone
  | PBool bool
  | PInt int
  | PStr string
  | PList "pyval list"
  | PDict "(string \<times> pyval) list"

text \<open>The exceptions the two modules can raise themselves, and whatever a remote action raises.\<close>

datatype error =
    AttributeError
  | KeyError
  | TypeError
  | IndexError
  | RemoteError string

section \<open>Dictionary primitives\<close>

text \<open>
  \<^verbatim>\<open>value.get(key)\<close>: on a dictionary the stored value, or \<^verbatim>\<open>None\<close> for a key that is
  not there; \<^verbatim>\<open>None\<close>, booleans, numbers, strings and lists have no attribute
  \<^verbatim>\<open>get\<close>.
\<close>

fun py_get :: "pyval \<Rightarrow> string \<Rightarrow> error + pyval" where
  "py_get (PDict m) key = Inr (case map_of m key of None \<Rightarrow> PNone | Some v \<Rightarrow> v)"
| "py_get _ key = Inl AttributeError"

text \<open>
  \<^verbatim>\<open>car["vin"]\<close>: \<^verbatim>\<open>KeyError\<close> for a key that is not in the dictionary,
  \<^verbatim>\<open>TypeError\<close> when the subscripted value is \<^verbatim>\<open>None\<close>, a boolean, a number, or a
  string or list (whose indices must be integers).
\<close>

fun py_getitem :: "pyval \<Rightarrow> string \<Rightarrow> error + pyval" where
  "py_getitem (PDict m) key = (case map_of m key of None \<Rightarrow> Inl KeyError | Some v \<Rightarrow> Inr v)"
| "py_getitem _ key = Inl TypeError"

text \<open>
  \<^verbatim>\<open>data_dict[key] = value\<close>: stores into a dictionary; every other value raises
  \<^verbatim>\<open>TypeError\<close> and is left as it was. The result is the outcome (\<open>None\<close> when
  nothing was raised) and the object after the statement.
\<close>

fun py_setitem :: "pyval \<Rightarrow> string \<Rightarrow> pyval \<Rightarrow> error option \<times> pyval" where
  "py_setitem (PDict m) key v = (None, PDict (AList.update key v m))"
| "py_setitem d key v = (Some TypeError, d)"

text \<open>
  \<^verbatim>\<open>d.setdefault(key, default)\<close> on the entries of a dictionary: the stored value when
  the key is there (also when that value is \<^verbatim>\<open>None\<close>), otherwise the default, which is
  stored at the end. Returns the value and the entries afterwards.
\<close>

definition setdefault :: "(string \<times> pyval) list \<Rightarrow> string \<Rightarrow> pyval \<Rightarrow> pyval \<times> (string \<times> pyval) list" where
  "setdefault m key dflt =
     (case map_of m key of
        Some v \<Rightarrow> (v, m)
      | None \<Rightarrow> (dflt, m @ [(key, dflt)]))"

section \<open>Dot notation\<close>

text \<open>
  \<^verbatim>\<open>key_path.split(".")\<close>: the pieces between the dots, empty pieces included; the
  empty string gives one empty piece, so the result is never the empty list.
\<close>

fun split_dot :: "string \<Rightarrow> string list" where
  "split_dot [] = [[]]"
| "split_dot (c # cs) =
     (if c = CHR ''.'' then [] # split_dot cs
      else (case split_dot cs of
              [] \<Rightarrow> [[c]]
            | w # ws \<Rightarrow> (c # w) # ws))"

section \<open>\<^verbatim>\<open>traverse_nested_dict\<close> (switch.py and sensor.py, the same text)\<close>

text \<open>
  The loop \<^verbatim>\<open>for key in keys: value = value.get(key); if value is None: return None\<close>,
  started at \<^verbatim>\<open>value = data_dict\<close>; falling out of the loop returns \<^verbatim>\<open>value\<close>.
\<close>

fun traverse_keys :: "pyval \<Rightarrow> string list \<Rightarrow> error + pyval" where
  "traverse_keys v [] = Inr v"
| "traverse_keys v (key # keys) =
     (case py_get v key of
        Inl e \<Rightarrow> Inl e
      | Inr PNone \<Rightarrow> Inr PNone
      | Inr v' \<Rightarrow> traverse_keys v' keys)"

definition traverse_nested_dict :: "pyval \<Rightarrow> string \<Rightarrow> error + pyval" where
  "traverse_nested_dict data_dict key_path = traverse_keys data_dict (split_dot key_path)"

section \<open>\<^verbatim>\<open>set_nested_dict_value\<close> (switch.py)\<close>

text \<open>
  \<^verbatim>\<open>for key in keys[:-1]: data_dict = data_dict.setdefault(key, {})\<close> and then
  \<^verbatim>\<open>data_dict[keys[-1]] = value\<close>. The first equation is \<^verbatim>\<open>keys[-1]\<close> on an empty
  list, the second the final store, the third one turn of the loop: \<^verbatim>\<open>setdefault\<close> is
  looked up on the current object (only dictionaries have it), the child it returns is
  the object the rest of the function works on, and what is done to the child shows in
  the parent under the same key. The result is the outcome and the record afterwards.
\<close>

fun set_keys :: "pyval \<Rightarrow> string list \<Rightarrow> pyval \<Rightarrow> error option \<times> pyval" where
  "set_keys d [] v = (Some IndexError, d)"
| "set_keys d [key] v = py_setitem d key v"
| "set_keys (PDict m) (key # keys) v =
     (case setdefault m key (PDict []) of
        (child, m') \<Rightarrow>
          (case set_keys child keys v of
             (r, child') \<Rightarrow> (r, PDict (AList.update key child' m'))))"
| "set_keys d (key # keys) v = (Some AttributeError, d)"

definition set_nested_dict_value :: "pyval \<Rightarrow> string \<Rightarrow> pyval \<Rightarrow> error option \<times> pyval" where
  "set_nested_dict_value data_dict key_path v = set_keys data_dict (split_dot key_path) v"

section \<open>How a path resolves in a record\<close>

text \<open>
  The specification's vocabulary for paths, independent of the two functions above:
  following the segments from a value, either every segment is found (the path resolves
  to the value stored under the last one), or some segment is missing from the map it is
  looked up in, or a value that is not a map is reached while segments remain.
\<close>

datatype resolution = Found pyval | Missing | is_NotMap: NotMap pyval

fun resolve :: "pyval \<Rightarrow> string list \<Rightarrow> resolution" where
  "resolve v [] = Found v"
| "resolve (PDict m) (key # keys) =
     (case map_of m key of
        None \<Rightarrow> Missing
      | Some v' \<Rightarrow> resolve v' keys)"
| "resolve v (key # keys) = NotMap v"

section \<open>\<^verbatim>\<open>getCarByVin\<close> (switch.py and sensor.py, the same loop)\<close>

text \<open>
  \<^verbatim>\<open>for car in coordinator.data["results"]: if car["vin"] == vin: return car\<close>, and
  \<^verbatim>\<open>return None\<close> after the loop. The argument \<^verbatim>\<open>vin\<close> is a string, so the
  comparison holds exactly when the stored identifier is that string.
\<close>

fun getCarByVin :: "pyval list \<Rightarrow> string \<Rightarrow> error + pyval" where
  "getCarByVin [] vin = Inr PNone"
| "getCarByVin (car # cars) vin =
     (case py_getitem car ''vin'' of
        Inl e \<Rightarrow> Inl e
      | Inr v \<Rightarrow> if v = PStr vin then Inr car else getCarByVin cars vin)"

section \<open>\<^verbatim>\<open>TessieCarSensor\<close> (sensor.py)\<close>

text \<open>
  The sensor's \<^verbatim>\<open>self.vin\<close> and \<^verbatim>\<open>self.entity_description.key\<close> come from its base
  class; they are the two fields here. \<^verbatim>\<open>native_value\<close> hands the result of
  \<^verbatim>\<open>getCarByVin\<close> to \<^verbatim>\<open>traverse_nested_dict\<close> as it is.
\<close>

record TessieCarSensor =
  sensor_vin :: string
  sensor_key :: string

definition native_value :: "TessieCarSensor \<Rightarrow> pyval list \<Rightarrow> error + pyval" where
  "native_value self rs =
     (case getCarByVin rs (sensor_vin self) of
        Inl e \<Rightarrow> Inl e
      | Inr car \<Rightarrow> traverse_nested_dict car (sensor_key self))"

section \<open>\<^verbatim>\<open>TessieSwitch\<close> (switch.py)\<close>

text \<open>
  A remote action (\<^verbatim>\<open>start_charging\<close>, \<^verbatim>\<open>stop_charging\<close>) is a coroutine called with
  the session, the identifier and the credential. Awaiting it changes the world outside
  the integration (type \<open>'w\<close>) and either completes (\<open>None\<close>) or raises. The snapshot
  is not replaced while the call is awaited: a refresh in between is a matter of
  scheduling, outside this model.
\<close>

type_synonym ('s, 'w) action = "'s \<Rightarrow> string \<Rightarrow> string \<Rightarrow> 'w \<Rightarrow> error option \<times> 'w"

record ('s, 'w) TessieSwitchEntityDescription =
  key :: string
  enabled_func :: "('s, 'w) action option"
  enabled_value :: "string option"
  disabled_func :: "('s, 'w) action option"
  disabled_value :: "string option"

record ('s, 'w) TessieSwitch =
  description :: "('s, 'w) TessieSwitchEntityDescription"
  session :: 's
  apiKey :: string
  vin :: string

text \<open>
  What the switch works on: the coordinator's \<^verbatim>\<open>data["results"]\<close>, the world behind
  the remote actions, and the number of states written by \<^verbatim>\<open>async_write_ha_state\<close>
  so far.
\<close>

record 'w hass =
  results :: "pyval list"
  world :: 'w
  written :: nat

text \<open>A configured value of type \<^verbatim>\<open>str | None\<close> as the Python value it is.\<close>

fun py_of :: "string option \<Rightarrow> pyval" where
  "py_of None = PNone"
| "py_of (Some s) = PStr s"

text \<open>
  \<^verbatim>\<open>is_on\<close>: the accessor on whatever \<^verbatim>\<open>getCarByVin\<close> returned, compared with
  \<^verbatim>\<open>enabled_value\<close>. The right-hand side is a string or \<^verbatim>\<open>None\<close>, for which
  Python's \<^verbatim>\<open>==\<close> is equality of values.
\<close>

definition is_on :: "('s, 'w) TessieSwitch \<Rightarrow> pyval list \<Rightarrow> error + bool" where
  "is_on self rs =
     (case getCarByVin rs (vin self) of
        Inl e \<Rightarrow> Inl e
      | Inr car \<Rightarrow>
          (case traverse_nested_dict car (key (description self)) of
             Inl e \<Rightarrow> Inl e
           | Inr v \<Rightarrow> Inr (v = py_of (enabled_value (description self)))))"

text \<open>
  The loop of \<^verbatim>\<open>async_turn_on\<close> and \<^verbatim>\<open>async_turn_off\<close>:
  \<^verbatim>\<open>for vehicle in results: if vehicle["vin"] == self._vin: set_nested_dict_value(...); break\<close>.
  The result is the outcome and the list afterwards.
\<close>

fun set_vehicle :: "pyval list \<Rightarrow> string \<Rightarrow> string \<Rightarrow> pyval \<Rightarrow> error option \<times> pyval list" where
  "set_vehicle [] vn k v = (None, [])"
| "set_vehicle (vehicle # vehicles) vn k v =
     (case py_getitem vehicle ''vin'' of
        Inl e \<Rightarrow> (Some e, vehicle # vehicles)
      | Inr x \<Rightarrow>
          if x = PStr vn then
            (case set_nested_dict_value vehicle k v of
               (r, vehicle') \<Rightarrow> (r, vehicle' # vehicles))
          else
            (case set_vehicle vehicles vn k v of
               (r, vehicles') \<Rightarrow> (r, vehicle # vehicles')))"

text \<open>
  Modelled from the spec: the host's \<^verbatim>\<open>async_write_ha_state\<close>, which is not among
  the sources. It asks the host to render the entity again, and the host renders a
  switch from its current state: \<^verbatim>\<open>is_on\<close> is read on the snapshot as it is at that
  moment. An exception of that read is the call's, and nothing is written then;
  otherwise the write is counted.
\<close>

definition async_write_ha_state :: "('s, 'w) TessieSwitch \<Rightarrow> 'w hass \<Rightarrow> error option \<times> 'w hass" where
  "async_write_ha_state self st =
     (case is_on self (results st) of
        Inl e \<Rightarrow> (Some e, st)
      | Inr b \<Rightarrow> (None, st\<lparr>written := Suc (written st)\<rparr>))"

text \<open>
  The body shared by the two transitions: return at once when the action is unset;
  otherwise await it, and only when it completed run the loop and then
  \<^verbatim>\<open>async_write_ha_state\<close> on the snapshot the loop has left. An exception ends the
  coroutine where it is raised.
\<close>

definition turn :: "('s, 'w) action option \<Rightarrow> string option \<Rightarrow> ('s, 'w) TessieSwitch \<Rightarrow> 'w hass
    \<Rightarrow> error option \<times> 'w hass" where
  "turn func val self st =
     (case func of
        None \<Rightarrow> (None, st)
      | Some f \<Rightarrow>
          (case f (session self) (vin self) (apiKey self) (world st) of
             (Some e, w) \<Rightarrow> (Some e, st\<lparr>world := w\<rparr>)
           | (None, w) \<Rightarrow>
               (case set_vehicle (results st) (vin self) (key (description self)) (py_of val) of
                  (Some e, rs) \<Rightarrow> (Some e, st\<lparr>results := rs, world := w\<rparr>)
                | (None, rs) \<Rightarrow> async_write_ha_state self (st\<lparr>results := rs, world := w\<rparr>))))"

definition async_turn_on :: "('s, 'w) TessieSwitch \<Rightarrow> 'w hass \<Rightarrow> error option \<times> 'w hass" where
  "async_turn_on self st =
     turn (enabled_func (description self)) (enabled_value (description self)) self st"

definition async_turn_off :: "('s, 'w) TessieSwitch \<Rightarrow> 'w hass \<Rightarrow> error option \<times> 'w hass" where
  "async_turn_off self st =
     turn (disabled_func (description self)) (disabled_value (description self)) self st"

section \<open>Records and identifiers\<close>

text \<open>
  The specification's vocabulary for snapshots: a record carries an identifier field
  when \<^verbatim>\<open>car["vin"]\<close> can be read, and it matches an identifier when that field is
  the given string.
\<close>

definition carries_vin :: "pyval \<Rightarrow> bool" where
  "carries_vin car = (case py_getitem car ''vin'' of Inl e \<Rightarrow> False | Inr v \<Rightarrow> True)"

definition has_vin :: "string \<Rightarrow> pyval \<Rightarrow> bool" where
  "has_vin vn car = (py_getitem car ''vin'' = Inr (PStr vn))"

definition other_vin :: "string \<Rightarrow> pyval \<Rightarrow> bool" where
  "other_vin vn car = (carries_vin car \<and> \<not> has_vin vn car)"

section \<open>Example data\<close>

text \<open>The record of the specification's scenarios, and a snapshot of three records.\<close>

definition scenario_car :: pyval where
  "scenario_car =
     PDict [(''vin'', PStr ''ABC''),
            (''last_state'',
               PDict [(''charge_state'', PDict [(''charging_state'', PStr ''Stopped'')])])]"

definition named_car :: "string \<Rightarrow> string \<Rightarrow> pyval" where
  "named_car vn nm = PDict [(''vin'', PStr vn), (''last_state'', PDict [(''display_name'', PStr nm)])]"

definition three_cars :: "pyval list" where
  "three_cars = [named_car ''AAA'' ''Ada'', named_car ''BBB'' ''Bob'', named_car ''CCC'' ''Cy'']"

text \<open>
  Remote actions for the examples. The world is the log of the calls made: the name of
  the action, the identifier and the credential. One action completes, the other raises.
\<close>

type_synonym call_log = "(string \<times> string \<times> string) list"


definition raises :: "string \<Rightarrow> (unit, call_log) action" where
  "raises nm s vn tok w = (Some (RemoteError ''timeout''), w @ [(nm, vn, tok)])"

text \<open>The one description of \<^verbatim>\<open>SENSOR_INFO_TYPES_TESLA\<close> in switch.py, with the given actions.\<close>

definition charging_switch :: "(unit, call_log) action option \<Rightarrow> (unit, call_log) action option
    \<Rightarrow> string \<Rightarrow> (unit, call_log) TessieSwitch" where
  "charging_switch on_func off_func vn =
     \<lparr>description =
        \<lparr>key = ''last_state.charge_state.charging_state'',
         enabled_func = on_func, enabled_value = Some ''Charging'',
         disabled_func = off_func, disabled_value = Some ''Stopped''\<rparr>,
      session = (), apiKey = ''token'', vin = vn\<rparr>"

text \<open>
  A state whose snapshot holds the scenario's record between two others, the same record
  once charging has started, a record whose \<^verbatim>\<open>last_state\<close> is a number, and a fourth
  record that repeats an identifier.
\<close>

definition fleet_state :: "call_log hass" where
  "fleet_state =
     \<lparr>results = [named_car ''AAA'' ''Ada'', scenario_car, named_car ''CCC'' ''Cy''],
      world = [], written = 0\<rparr>"



definition twin :: pyval where
  "twin = PDict [(''vin'', PStr ''BBB''), (''last_state'', PDict [])]"

section \<open>Properties of the path splitting\<close>

lemma split_dot_nonempty: "split_dot s \<noteq> []"
  by (induction s) (auto split: list.splits)

section \<open>Properties of the accessor\<close>

lemma traverse_keys_found:
  "resolve v keys = Found leaf \<Longrightarrow> traverse_keys v keys = Inr leaf"
proof (induction v keys rule: resolve.induct)
  case (2 m key keys)
  then obtain v' where v': "map_of m key = Some v'" and r: "resolve v' keys = Found leaf"
    by (auto split: option.splits)
  show ?case
  proof (cases "v' = PNone")
    case True
    with r have "leaf = PNone" by (cases keys) auto
    with True v' show ?thesis by simp
  next
    case False
    with v' r "2.IH" show ?thesis by (cases v') auto
  qed
qed auto

lemma traverse_keys_missing:
  "resolve v keys = Missing \<Longrightarrow> traverse_keys v keys = Inr PNone"
proof (induction v keys rule: resolve.induct)
  case (2 m key keys)
  show ?case
  proof (cases "map_of m key")
    case None
    then show ?thesis by simp
  next
    case (Some v')
    with "2.prems" have r: "resolve v' keys = Missing" by simp
    with Some "2.IH" show ?thesis by (cases v') auto
  qed
qed auto

lemma traverse_keys_null:
  "resolve v keys = NotMap PNone \<Longrightarrow> v \<noteq> PNone \<Longrightarrow> traverse_keys v keys = Inr PNone"
proof (induction v keys rule: resolve.induct)
  case (2 m key keys)
  then obtain v' where v': "map_of m key = Some v'" and r: "resolve v' keys = NotMap PNone"
    by (auto split: option.splits)
  with "2.IH" show ?case by (cases v') auto
qed auto

section \<open>Properties of the mutator\<close>

text \<open>
  When no value that is not a map stands in the way, the mutator returns normally and
  the path then resolves to the value that was set.
\<close>

lemma set_keys_ok:
  "keys \<noteq> [] \<Longrightarrow> \<not> is_NotMap (resolve d keys) \<Longrightarrow>
   \<exists>d'. set_keys d keys v = (None, d') \<and> resolve d' keys = Found v"
proof (induction d keys v rule: set_keys.induct)
  case (2 d key v)
  then obtain m where "d = PDict m" by (cases d) auto
  then show ?case by (simp add: update_conv')
next
  case (3 m key k' ks v)
  let ?keys = "k' # ks"
  show ?case
  proof (cases "map_of m key")
    case None
    have "\<not> is_NotMap (resolve (PDict []) ?keys)" by simp
    with "3.IH" None
    obtain c' where c': "set_keys (PDict []) ?keys v = (None, c')" "resolve c' ?keys = Found v"
      by (auto simp: setdefault_def)
    with None show ?thesis by (simp add: setdefault_def update_conv')
  next
    case (Some child)
    with "3.prems" have "\<not> is_NotMap (resolve child ?keys)" by simp
    with "3.IH" Some
    obtain c' where c': "set_keys child ?keys v = (None, c')" "resolve c' ?keys = Found v"
      by (auto simp: setdefault_def)
    with Some show ?thesis by (simp add: setdefault_def update_conv')
  qed
qed auto

text \<open>
  When a value that is not a map stands in the way, the mutator raises, and the record
  is as it was: the loop has only read existing entries up to that point.
\<close>

lemma set_keys_blocked:
  "is_NotMap (resolve d keys) \<Longrightarrow> \<exists>e. set_keys d keys v = (Some e, d)"
proof (induction d keys v rule: set_keys.induct)
  case (2 d key v)
  then show ?case by (cases d) (auto split: option.splits)
next
  case (3 m key k' ks v)
  let ?keys = "k' # ks"
  from "3.prems" obtain child where ch: "map_of m key = Some child" "is_NotMap (resolve child ?keys)"
    by (auto split: option.splits)
  with "3.IH" obtain e where "set_keys child ?keys v = (Some e, child)"
    by (auto simp: setdefault_def)
  with ch show ?case by (simp add: setdefault_def update_triv)
qed auto

lemma set_keys_error_unchanged:
  assumes "set_keys d keys v = (Some e, d')"
  shows "d' = d"
proof (cases "keys = []")
  case True
  with assms show ?thesis by simp
next
  case False
  show ?thesis
  proof (cases "is_NotMap (resolve d keys)")
    case True
    from set_keys_blocked[OF True, of v] assms show ?thesis by auto
  next
    case F: False
    from set_keys_ok[OF False F, of v] assms show ?thesis by auto
  qed
qed

lemma set_nested_dict_value_error_unchanged:
  "set_nested_dict_value d P v = (Some e, d') \<Longrightarrow> d' = d"
  unfolding set_nested_dict_value_def by (rule set_keys_error_unchanged)

section \<open>Properties of the locator and of the adapters\<close>

lemma getCarByVin_no_match:
  "list_all (other_vin vn) rs \<Longrightarrow> getCarByVin rs vn = Inr PNone"
  by (induction rs) (auto simp: other_vin_def carries_vin_def has_vin_def split: sum.splits)

lemma getCarByVin_match:
  "list_all (other_vin vn) pre \<Longrightarrow> has_vin vn car \<Longrightarrow> getCarByVin (pre @ car # post) vn = Inr car"
  by (induction pre) (auto simp: other_vin_def carries_vin_def has_vin_def split: sum.splits)

text \<open>
  The accessor looks \<^verbatim>\<open>get\<close> up on its argument before any test for \<^verbatim>\<open>None\<close>, and
  there is always a first segment.
\<close>

lemma traverse_nested_dict_None: "traverse_nested_dict PNone P = Inl AttributeError"
  unfolding traverse_nested_dict_def
  using split_dot_nonempty [of P] by (cases "split_dot P") auto

text \<open>
  So both adapters raise whenever the records all carry identifiers and none of them is
  the adapter's.
\<close>

lemma native_value_no_match:
  "list_all (other_vin (sensor_vin self)) rs \<Longrightarrow> native_value self rs = Inl AttributeError"
  by (simp add: native_value_def getCarByVin_no_match traverse_nested_dict_None)

lemma is_on_no_match:
  "list_all (other_vin (vin self)) rs \<Longrightarrow> is_on self rs = Inl AttributeError"
  by (simp add: is_on_def getCarByVin_no_match traverse_nested_dict_None)

text \<open>
  With a record found, the switch is on exactly when the accessor returns the
  configured value, and off when the path is missing and a value is configured.
\<close>

lemma is_on_true_iff:
  "is_on self rs = Inr True \<longleftrightarrow>
     (\<exists>car. getCarByVin rs (vin self) = Inr car
        \<and> traverse_nested_dict car (key (description self))
            = Inr (py_of (enabled_value (description self))))"
  by (auto simp: is_on_def split: sum.splits)

lemma is_on_path_missing:
  "list_all (other_vin (vin self)) pre \<Longrightarrow> has_vin (vin self) car \<Longrightarrow>
   resolve car (split_dot (key (description self))) = Missing \<Longrightarrow>
   enabled_value (description self) = Some s \<Longrightarrow>
   is_on self (pre @ car # post) = Inr False"
  by (simp add: is_on_def getCarByVin_match traverse_nested_dict_def traverse_keys_missing)

lemma set_vehicle_match:
  "list_all (other_vin vn) pre \<Longrightarrow> has_vin vn car \<Longrightarrow>
   set_vehicle (pre @ car # post) vn k v =
     (case set_nested_dict_value car k v of (r, car') \<Rightarrow> (r, pre @ car' # post))"
  by (induction pre)
    (auto simp: other_vin_def carries_vin_def has_vin_def split: sum.splits prod.splits)


lemma turn_raised:
  "f (session self) (vin self) (apiKey self) (world st) = (Some e, w) \<Longrightarrow>
   turn (Some f) val self st = (Some e, st\<lparr>world := w\<rparr>)"
  by (simp add: turn_def)



text \<open>
  After the awaited action has completed: without a matching record the loop changes
  nothing and the state write raises; with a first matching record whose path is blocked
  the mutator's exception ends the transition before the state write; otherwise the
  record is replaced by the mutated one and the state is written once.
\<close>

lemma turn_no_match:
  assumes "f (session self) (vin self) (apiKey self) (world st) = (None, w)"
    and "list_all (other_vin (vin self)) (results st)"
  shows "turn (Some f) val self st = (Some AttributeError, st\<lparr>world := w\<rparr>)"
proof -
  have "set_vehicle rs vn k v = (None, rs)" if "list_all (other_vin vn) rs" for rs vn k v
    using that
    by (induction rs) (auto simp: other_vin_def carries_vin_def has_vin_def split: sum.splits)
  with assms show ?thesis
    by (simp add: turn_def async_write_ha_state_def is_on_no_match)
qed

lemma turn_blocked:
  assumes "f (session self) (vin self) (apiKey self) (world st) = (None, w)"
    and "results st = pre @ car # post"
    and "list_all (other_vin (vin self)) pre"
    and "has_vin (vin self) car"
    and "is_NotMap (resolve car (split_dot (key (description self))))"
  shows "\<exists>e. turn (Some f) val self st = (Some e, st\<lparr>world := w\<rparr>)"
proof -
  from set_keys_blocked [OF assms(5), of "py_of val"] obtain e
    where "set_nested_dict_value car (key (description self)) (py_of val) = (Some e, car)"
    by (auto simp: set_nested_dict_value_def)
  with assms show ?thesis
    by (simp add: turn_def set_vehicle_match)
qed


section \<open>The claims\<close>

subsection \<open>C1: the accessor on missing and malformed paths\<close>

text \<open>
  C1, as amended. For every value \<open>D\<close> and path \<open>P\<close> such that, following the
  segments of \<open>P\<close> through maps from \<open>D\<close>, some segment is missing from the map it is
  looked up in, or a stored \<^verbatim>\<open>None\<close> is reached while segments remain,
  \<^verbatim>\<open>traverse_nested_dict\<close> returns \<^verbatim>\<open>None\<close> and raises nothing. (Either condition
  makes \<open>D\<close> a map.)
\<close>

theorem traverse_nested_dict_absent:
  "resolve D (split_dot P) = Missing \<or> (resolve D (split_dot P) = NotMap PNone \<and> D \<noteq> PNone)
   \<Longrightarrow> traverse_nested_dict D P = Inr PNone"
  unfolding traverse_nested_dict_def
  by (auto intro: traverse_keys_missing traverse_keys_null)

text \<open>
  The theorem at the scenario's record with a path whose second segment is missing, and
  at \<^verbatim>\<open>{"a": None}\<close> with the path \<^verbatim>\<open>a.b\<close>.
\<close>

theorem traverse_nested_dict_absent_witness:
  "resolve scenario_car (split_dot ''last_state.drive_state.speed'') = Missing
   \<and> traverse_nested_dict scenario_car ''last_state.drive_state.speed'' = Inr PNone
   \<and> resolve (PDict [(''a'', PNone)]) (split_dot ''a.b'') = NotMap PNone
   \<and> traverse_nested_dict (PDict [(''a'', PNone)]) ''a.b'' = Inr PNone"
proof -
  have h1: "resolve scenario_car (split_dot ''last_state.drive_state.speed'') = Missing"
    by (simp add: scenario_car_def)
  have h2: "resolve (PDict [(''a'', PNone)]) (split_dot ''a.b'') = NotMap PNone"
    by simp
  from h1 h2
    traverse_nested_dict_absent [of scenario_car "''last_state.drive_state.speed''"]
    traverse_nested_dict_absent [of "PDict [(''a'', PNone)]" "''a.b''"]
  show ?thesis by simp
qed

text \<open>
  C1 as stated fails: in \<^verbatim>\<open>{"a": 5}\<close> the path \<^verbatim>\<open>a.b\<close> reaches the number 5 before
  its final segment, and the accessor raises \<^verbatim>\<open>AttributeError\<close> instead of returning
  \<^verbatim>\<open>None\<close>.
\<close>

theorem traverse_nested_dict_nonmap_counterexample:
  "resolve (PDict [(''a'', PInt 5)]) (split_dot ''a.b'') = NotMap (PInt 5)
   \<and> traverse_nested_dict (PDict [(''a'', PInt 5)]) ''a.b'' = Inl AttributeError"
  by (simp add: traverse_nested_dict_def)

subsection \<open>C2: the observed state of the switch\<close>

text \<open>
  C2 says that the switch is off when no record is located. At a snapshot holding only
  the record with identifier \<^verbatim>\<open>ABC\<close> and a switch for \<^verbatim>\<open>XYZ\<close>, \<^verbatim>\<open>getCarByVin\<close>
  returns \<^verbatim>\<open>None\<close> and \<^verbatim>\<open>is_on\<close> raises \<^verbatim>\<open>AttributeError\<close>.
\<close>

theorem is_on_unknown_vin_raises:
  "getCarByVin [scenario_car] ''XYZ'' = Inr PNone
   \<and> is_on (charging_switch None None ''XYZ'') [scenario_car] = Inl AttributeError"
  by (simp add: is_on_def traverse_nested_dict_def scenario_car_def charging_switch_def)

subsection \<open>C3: set, then get\<close>

text \<open>
  C3, as amended. For every record \<open>R\<close>, path \<open>P\<close> and value \<open>V\<close> such that following
  \<open>P\<close> in \<open>R\<close> does not reach a value that is not a map while segments remain,
  \<^verbatim>\<open>set_nested_dict_value\<close> returns normally, and \<^verbatim>\<open>traverse_nested_dict\<close> on the
  record it leaves returns \<open>V\<close>.
\<close>

theorem set_then_traverse:
  assumes "\<not> is_NotMap (resolve R (split_dot P))"
  shows "\<exists>R'. set_nested_dict_value R P V = (None, R') \<and> traverse_nested_dict R' P = Inr V"
proof -
  from set_keys_ok [OF split_dot_nonempty assms, of V]
  obtain R' where "set_keys R (split_dot P) V = (None, R')" "resolve R' (split_dot P) = Found V"
    by blast
  then show ?thesis
    by (auto simp: set_nested_dict_value_def traverse_nested_dict_def traverse_keys_found)
qed

text \<open>The theorem at the scenario's record, its configured path and the value \<^verbatim>\<open>"Charging"\<close>.\<close>

theorem set_then_traverse_witness:
  "\<not> is_NotMap (resolve scenario_car (split_dot ''last_state.charge_state.charging_state''))
   \<and> (\<exists>R'. set_nested_dict_value scenario_car ''last_state.charge_state.charging_state''
              (PStr ''Charging'') = (None, R')
         \<and> traverse_nested_dict R' ''last_state.charge_state.charging_state''
              = Inr (PStr ''Charging''))"
proof -
  have h: "\<not> is_NotMap (resolve scenario_car (split_dot ''last_state.charge_state.charging_state''))"
    by (simp add: scenario_car_def)
  from h set_then_traverse [OF h, of "PStr ''Charging''"] show ?thesis by blast
qed

text \<open>
  C3 as stated fails: on \<^verbatim>\<open>{"a": 5}\<close> with the path \<^verbatim>\<open>a.b\<close> and the value 1 the
  mutator raises \<^verbatim>\<open>TypeError\<close> and leaves the record as it was, on which the accessor
  raises \<^verbatim>\<open>AttributeError\<close>.
\<close>

theorem set_then_traverse_counterexample:
  "set_nested_dict_value (PDict [(''a'', PInt 5)]) ''a.b'' (PInt 1)
     = (Some TypeError, PDict [(''a'', PInt 5)])
   \<and> traverse_nested_dict (PDict [(''a'', PInt 5)]) ''a.b'' = Inl AttributeError"
  by (simp add: set_nested_dict_value_def traverse_nested_dict_def setdefault_def)

subsection \<open>C4: the sensor without a matching record\<close>

text \<open>
  C4 says that \<^verbatim>\<open>native_value\<close> returns \<^verbatim>\<open>None\<close> and surfaces no error when no
  record matches. At a snapshot of three records and the identifier \<^verbatim>\<open>XYZ\<close>,
  \<^verbatim>\<open>getCarByVin\<close> returns \<^verbatim>\<open>None\<close> and \<^verbatim>\<open>native_value\<close> raises
  \<^verbatim>\<open>AttributeError\<close>.
\<close>

theorem native_value_unknown_vin_raises:
  "getCarByVin three_cars ''XYZ'' = Inr PNone
   \<and> native_value \<lparr>sensor_vin = ''XYZ'', sensor_key = ''last_state.display_name''\<rparr> three_cars
       = Inl AttributeError"
  by (simp add: native_value_def traverse_nested_dict_def three_cars_def named_car_def)

subsection \<open>C5: the two transitions\<close>




subsection \<open>C6: a remote action that raises\<close>

text \<open>
  C6. When the enable action is set and raises, \<^verbatim>\<open>async_turn_on\<close> ends with that
  exception; the state is the one before the call except for what the action did to
  the world, so every record of the snapshot is unchanged and nothing is written.
  \<^verbatim>\<open>async_turn_off\<close> likewise with the disable action.
\<close>

theorem async_turn_remote_failure:
  "(enabled_func (description self) = Some f
      \<and> f (session self) (vin self) (apiKey self) (world st) = (Some e, w) \<longrightarrow>
    async_turn_on self st = (Some e, st\<lparr>world := w\<rparr>)
      \<and> results (snd (async_turn_on self st)) = results st)
   \<and> (disabled_func (description self) = Some g
      \<and> g (session self) (vin self) (apiKey self) (world st) = (Some e', w') \<longrightarrow>
    async_turn_off self st = (Some e', st\<lparr>world := w'\<rparr>)
      \<and> results (snd (async_turn_off self st)) = results st)"
  unfolding async_turn_on_def async_turn_off_def
  by (auto simp: turn_raised)

text \<open>The theorem at a switch for \<^verbatim>\<open>ABC\<close> whose two actions raise after being logged.\<close>

theorem async_turn_remote_failure_witness:
  "async_turn_on
        (charging_switch (Some (raises ''start_charging'')) (Some (raises ''stop_charging'')) ''ABC'')
        fleet_state
      = (Some (RemoteError ''timeout''),
         fleet_state\<lparr>world := [(''start_charging'', ''ABC'', ''token'')]\<rparr>)
   \<and> async_turn_off
        (charging_switch (Some (raises ''start_charging'')) (Some (raises ''stop_charging'')) ''ABC'')
        fleet_state
      = (Some (RemoteError ''timeout''),
         fleet_state\<lparr>world := [(''stop_charging'', ''ABC'', ''token'')]\<rparr>)"
  using
    async_turn_remote_failure [where
      self = "charging_switch (Some (raises ''start_charging'')) (Some (raises ''stop_charging''))
                ''ABC''"
      and st = fleet_state
      and f = "raises ''start_charging''" and w = "[(''start_charging'', ''ABC'', ''token'')]"
      and g = "raises ''stop_charging''" and w' = "[(''stop_charging'', ''ABC'', ''token'')]"
      and e = "RemoteError ''timeout''" and e' = "RemoteError ''timeout''"]
  by (simp add: fleet_state_def charging_switch_def raises_def)

subsection \<open>C7: the locator\<close>

text \<open>
  C7. On a snapshot whose records all carry an identifier field, \<^verbatim>\<open>getCarByVin\<close>
  returns the first record in list order whose identifier is the given string, and
  \<^verbatim>\<open>None\<close> when there is none.
\<close>

theorem getCarByVin_first_match:
  "list_all carries_vin rs \<Longrightarrow>
   getCarByVin rs vn = Inr (case find (has_vin vn) rs of None \<Rightarrow> PNone | Some car \<Rightarrow> car)"
  by (induction rs) (auto simp: carries_vin_def has_vin_def split: sum.splits)

text \<open>
  The theorem at four records of which the second and the fourth have the identifier
  \<^verbatim>\<open>BBB\<close>: the second is returned for \<^verbatim>\<open>BBB\<close>, and \<^verbatim>\<open>None\<close> for \<^verbatim>\<open>XYZ\<close>.
\<close>

theorem getCarByVin_first_match_witness:
  "list_all carries_vin (three_cars @ [twin])
   \<and> getCarByVin (three_cars @ [twin]) ''BBB'' = Inr (named_car ''BBB'' ''Bob'')
   \<and> getCarByVin (three_cars @ [twin]) ''XYZ'' = Inr PNone"
proof -
  have h: "list_all carries_vin (three_cars @ [twin])"
    by (simp add: three_cars_def named_car_def twin_def carries_vin_def)
  from h getCarByVin_first_match [OF h, of "''BBB''"] getCarByVin_first_match [OF h, of "''XYZ''"]
  show ?thesis
    by (simp add: three_cars_def named_car_def twin_def has_vin_def)
qed

subsection \<open>C8: the accessor on a path that resolves\<close>

text \<open>
  C8. When every intermediate segment of \<open>P\<close> resolves to a map in \<open>R\<close> and the final
  segment is present, \<^verbatim>\<open>traverse_nested_dict\<close> returns the stored value itself.
\<close>

theorem traverse_nested_dict_found:
  "resolve R (split_dot P) = Found leaf \<Longrightarrow> traverse_nested_dict R P = Inr leaf"
  unfolding traverse_nested_dict_def by (rule traverse_keys_found)

text \<open>The theorem at the scenario: the accessor returns \<^verbatim>\<open>"Stopped"\<close>.\<close>

theorem traverse_nested_dict_found_witness:
  "resolve scenario_car (split_dot ''last_state.charge_state.charging_state'')
     = Found (PStr ''Stopped'')
   \<and> traverse_nested_dict scenario_car ''last_state.charge_state.charging_state''
     = Inr (PStr ''Stopped'')"
proof -
  have h: "resolve scenario_car (split_dot ''last_state.charge_state.charging_state'')
             = Found (PStr ''Stopped'')"
    by (simp add: scenario_car_def)
  from h traverse_nested_dict_found [OF h] show ?thesis by simp
qed

subsection \<open>C9: the mutator\<close>

text \<open>
  C9, as amended. For every record \<open>R\<close>, path \<open>P\<close> and value \<open>V\<close> such that following
  \<open>P\<close> in \<open>R\<close> does not reach a value that is not a map while segments remain,
  \<^verbatim>\<open>set_nested_dict_value\<close> returns normally and leaves a record in which \<open>P\<close>
  resolves to \<open>V\<close>: every intermediate segment is a map there, also those that were
  missing before. In particular the path \<^verbatim>\<open>a.b.c\<close> and the value 5 on the empty record
  give \<^verbatim>\<open>{"a": {"b": {"c": 5}}}\<close>.
\<close>

theorem set_nested_dict_value_leaf:
  "(\<not> is_NotMap (resolve R (split_dot P)) \<longrightarrow>
      (\<exists>R'. set_nested_dict_value R P V = (None, R') \<and> resolve R' (split_dot P) = Found V))
   \<and> set_nested_dict_value (PDict []) ''a.b.c'' (PInt 5)
       = (None, PDict [(''a'', PDict [(''b'', PDict [(''c'', PInt 5)])])])"
proof
  show "\<not> is_NotMap (resolve R (split_dot P)) \<longrightarrow>
      (\<exists>R'. set_nested_dict_value R P V = (None, R') \<and> resolve R' (split_dot P) = Found V)"
    unfolding set_nested_dict_value_def
    using set_keys_ok [OF split_dot_nonempty, of R P V] by blast
  show "set_nested_dict_value (PDict []) ''a.b.c'' (PInt 5)
       = (None, PDict [(''a'', PDict [(''b'', PDict [(''c'', PInt 5)])])])"
    by (simp add: set_nested_dict_value_def setdefault_def)
qed

text \<open>
  The theorem at \<^verbatim>\<open>{"a": {"x": True}}\<close>, where the first segment of \<^verbatim>\<open>a.b.c\<close> is a
  map and the second is missing.
\<close>

theorem set_nested_dict_value_leaf_witness:
  "\<not> is_NotMap (resolve (PDict [(''a'', PDict [(''x'', PBool True)])]) (split_dot ''a.b.c''))
   \<and> (\<exists>R'. set_nested_dict_value (PDict [(''a'', PDict [(''x'', PBool True)])]) ''a.b.c'' (PInt 5)
              = (None, R')
         \<and> resolve R' (split_dot ''a.b.c'') = Found (PInt 5))"
  using set_nested_dict_value_leaf
    [of "PDict [(''a'', PDict [(''x'', PBool True)])]" "''a.b.c''" "PInt 5"]
  by simp

text \<open>
  C9 as stated fails: on \<^verbatim>\<open>{"a": "x"}\<close> with the path \<^verbatim>\<open>a.b.c\<close> the first segment
  holds a string, and the mutator raises \<^verbatim>\<open>AttributeError\<close> and sets nothing.
\<close>

theorem set_nested_dict_value_counterexample:
  "resolve (PDict [(''a'', PStr ''x'')]) (split_dot ''a.b.c'') = NotMap (PStr ''x'')
   \<and> set_nested_dict_value (PDict [(''a'', PStr ''x'')]) ''a.b.c'' (PInt 5)
     = (Some AttributeError, PDict [(''a'', PStr ''x'')])"
  by (simp add: set_nested_dict_value_def setdefault_def)

subsection \<open>C10: a stored \<^verbatim>\<open>None\<close>\<close>

text \<open>
  C10. When \<open>P\<close> resolves in \<open>R\<close> to a stored \<^verbatim>\<open>None\<close>, \<^verbatim>\<open>traverse_nested_dict\<close>
  returns \<^verbatim>\<open>None\<close>, which is also what it returns on any record \<open>R'\<close> in which a
  segment of \<open>P\<close> is missing.
\<close>

theorem traverse_nested_dict_null_leaf:
  "resolve R (split_dot P) = Found PNone \<Longrightarrow> resolve R' (split_dot P) = Missing \<Longrightarrow>
   traverse_nested_dict R P = Inr PNone \<and> traverse_nested_dict R P = traverse_nested_dict R' P"
  unfolding traverse_nested_dict_def
  by (simp add: traverse_keys_found traverse_keys_missing)

text \<open>The theorem at \<^verbatim>\<open>{"a": {"b": None}}\<close> and \<^verbatim>\<open>{"a": {}}\<close> with the path \<^verbatim>\<open>a.b\<close>.\<close>

theorem traverse_nested_dict_null_leaf_witness:
  "resolve (PDict [(''a'', PDict [(''b'', PNone)])]) (split_dot ''a.b'') = Found PNone
   \<and> resolve (PDict [(''a'', PDict [])]) (split_dot ''a.b'') = Missing
   \<and> traverse_nested_dict (PDict [(''a'', PDict [(''b'', PNone)])]) ''a.b'' = Inr PNone
   \<and> traverse_nested_dict (PDict [(''a'', PDict [])]) ''a.b'' = Inr PNone"
proof -
  have h1: "resolve (PDict [(''a'', PDict [(''b'', PNone)])]) (split_dot ''a.b'') = Found PNone"
    by simp
  have h2: "resolve (PDict [(''a'', PDict [])]) (split_dot ''a.b'') = Missing"
    by simp
  from traverse_nested_dict_null_leaf [OF h1 h2] h1 h2 show ?thesis by metis
qed

end
